theory Spec2Isabelle
  imports Main "HOL-Library.Sublist" "HOL-Library.List_Lexorder" "HOL-Library.Char_ord"
    "HOL-Library.AList"
begin

section \<open>UrlPrefixResolver: \<open>findUrlBasePath\<close>\<close>

text \<open>
  \<open>findUrlBasePath\<close> is the helper defined inside \<open>getProductNamesAndPageUrls\<close>
  (tailwindplus-download.js). A JavaScript string is a sequence of code units, compared
  unit by unit both by \<open>===\<close> on \<open>first[i]\<close> and by the default \<open>Array.prototype.sort\<close>,
  so a URL is a list over any linearly ordered alphabet and the default sort order is the
  lexicographic order of \<open>List_Lexorder\<close>.

  The \<open>while\<close> loop advancing \<open>i\<close> is \<open>common_prefix_len\<close>; it stops at the first index that
  is out of range for either string or at which the two strings differ.
\<close>

function common_prefix_len :: "'a list \<Rightarrow> 'a list \<Rightarrow> nat \<Rightarrow> nat" where
  "common_prefix_len first last' i =
     (if i < length first \<and> i < length last' \<and> first ! i = last' ! i
      then common_prefix_len first last' (i + 1) else i)"
  by pat_completeness auto
termination
  by (relation "measure (\<lambda>(first, last', i). length first - i)") auto

declare common_prefix_len.simps [simp del]

definition findUrlBasePath :: "('a::linorder) list list \<Rightarrow> 'a list" where
  "findUrlBasePath urls =
     (if length urls = 0 then []
      else if length urls = 1 then urls ! 0
      else (let urls' = sort urls;
                first = urls' ! 0;
                last' = urls' ! (length urls' - 1);
                i = common_prefix_len first last' 0
            in take i first))"


text \<open>
  The same function over an explicit store of arrays, to observe what the call does to the
  array the caller passed. An address is an index into the store. \<open>[...urls]\<close> allocates a
  new array holding the elements of \<open>urls\<close>; \<open>.sort()\<close> sorts the array it is called on in
  place and returns the same reference; the assignment rebinds the local variable \<open>urls\<close>.
\<close>

type_synonym addr = nat

type_synonym 'a heap = "'a list list list"

definition spread_copy :: "'a heap \<Rightarrow> addr \<Rightarrow> addr \<times> 'a heap" where
  "spread_copy h a = (length h, h @ [h ! a])"

definition array_sort :: "('a::linorder) heap \<Rightarrow> addr \<Rightarrow> addr \<times> 'a heap" where
  "array_sort h a = (a, h[a := sort (h ! a)])"

definition findUrlBasePath_heap :: "('a::linorder) heap \<Rightarrow> addr \<Rightarrow> 'a list \<times> 'a heap" where
  "findUrlBasePath_heap h urls =
     (if length (h ! urls) = 0 then ([], h)
      else if length (h ! urls) = 1 then ((h ! urls) ! 0, h)
      else (let (copy, h1) = spread_copy h urls;
                (urls', h2) = array_sort h1 copy;
                first = (h2 ! urls') ! 0;
                last' = (h2 ! urls') ! (length (h2 ! urls') - 1);
                i = common_prefix_len first last' 0
            in (take i first, h2)))"

section \<open>HierarchyExtractor: the in-page extraction functions\<close>

text \<open>
  A JavaScript object with string keys is an association list in property order. An entry
  of an object literal, \<open>{...obj, [k]: v}\<close>, defines the property \<open>k\<close> of the new object
  whatever \<open>k\<close> is: it replaces the value of an existing key in place and appends a new key
  at the end, which is \<open>AList.update\<close>. (Keys that look like array indices would be
  enumerated first by the engine; headings and URLs are not of that form, and the
  properties below are about lookups.)

  An exception is a value of type \<open>error\<close>: \<open>EvaluationError p\<close> is the \<open>TypeError\<close> raised
  inside \<open>page.evaluate\<close> when property \<open>p\<close> of \<open>null\<close> is read (a \<open>querySelector\<close> that found
  nothing); \<open>NavigationError m\<close> is the rejection of \<open>goto\<close> or \<open>goBack\<close> with message \<open>m\<close>.
\<close>

datatype error = EvaluationError string | NavigationError string

type_synonym 'v obj = "(string \<times> 'v) list"

text \<open>
  What the extraction functions read of the rendered documents. On the root page, each
  \<open>section[id^="product-"]\<close> has an optional \<open>h2\<close> and the \<open>href\<close>s of its \<open>li a\<close> links. On a
  product page, each section has an optional \<open>h3\<close> and the elements matched by
  \<open>li :is(p:first-child, a)\<close> in document order, each an \<open>A\<close> with its \<open>href\<close> or a \<open>P\<close> with its
  text. On a components page, each \<open>section[id^="component-"]\<close> has or lacks the code button,
  an optional \<open>h2\<close>, and the text of \<open>pre code\<close> once the button has been clicked and the
  delay has passed (or no such element).
\<close>

datatype root_section = RootSection (rs_h2: "string option") (rs_hrefs: "string list")

datatype element = A string | P string

datatype page_section = PageSection (ps_h3: "string option") (ps_elements: "element list")

datatype component_section =
  ComponentSection (cs_codeButton: bool) (cs_h2: "string option") (cs_pre_code: "string option")

definition textContent :: "string option \<Rightarrow> error + string" where
  "textContent e = (case e of None \<Rightarrow> Inl (EvaluationError ''textContent'') | Some t \<Rightarrow> Inr t)"

text \<open>
  \<open>getProductNamesAndPageUrls\<close>: the \<open>reduce\<close> over the root page's sections, from \<open>{}\<close>.
\<close>

fun getProductNamesAndPageUrls_reduce ::
  "root_section list \<Rightarrow> string obj \<Rightarrow> error + string obj" where
  "getProductNamesAndPageUrls_reduce [] namesAndUrls = Inr namesAndUrls"
| "getProductNamesAndPageUrls_reduce (section # rest) namesAndUrls =
     (case textContent (rs_h2 section) of
        Inl e \<Rightarrow> Inl e
      | Inr name \<Rightarrow>
          getProductNamesAndPageUrls_reduce rest
            (AList.update name (findUrlBasePath (rs_hrefs section)) namesAndUrls))"

definition getProductNamesAndPageUrls :: "root_section list \<Rightarrow> error + string obj" where
  "getProductNamesAndPageUrls rootPage = getProductNamesAndPageUrls_reduce rootPage []"

text \<open>
  An assignment \<open>obj[k] = v\<close> of a string \<open>v\<close> to an object created by \<open>{}\<close> goes through the
  prototype chain first. For every key but one this creates or overwrites the property.
  For the key \<open>__proto__\<close> it calls the setter that \<open>Object.prototype\<close> defines for that name,
  which ignores a value that is neither an object nor \<open>null\<close>: nothing is stored.
\<close>

definition assign_string :: "string \<Rightarrow> string \<Rightarrow> string obj \<Rightarrow> string obj" where
  "assign_string k v obj = (if k = ''__proto__'' then obj else AList.update k v obj)"

text \<open>
  \<open>productSectionToNamesAndPageUrls\<close>: the \<open>map\<close> turns each element into its \<open>href\<close> or its
  text; the \<open>reduce\<close> callback \<open>(obj, item, index, array)\<close> writes \<open>obj[item] = array[index - 1]\<close>
  at every odd index. \<open>reduce_index\<close> is \<open>Array.prototype.reduce\<close> with the running index.
\<close>

fun reduce_index :: "('b \<Rightarrow> 'a \<Rightarrow> nat \<Rightarrow> 'b) \<Rightarrow> 'a list \<Rightarrow> nat \<Rightarrow> 'b \<Rightarrow> 'b" where
  "reduce_index f [] index acc = acc"
| "reduce_index f (item # rest) index acc = reduce_index f rest (index + 1) (f acc item index)"

definition element_value :: "element \<Rightarrow> string" where
  "element_value e = (case e of A href \<Rightarrow> href | P text \<Rightarrow> text)"

definition productSectionToNamesAndPageUrls :: "element list \<Rightarrow> string obj" where
  "productSectionToNamesAndPageUrls pageSection =
     (let array = map element_value pageSection
      in reduce_index
           (\<lambda>obj item index.
              if index mod 2 = 1 then assign_string item (array ! (index - 1)) obj else obj)
           array 0 [])"

fun getProductSectionsAndPageUrls_reduce ::
  "page_section list \<Rightarrow> (string obj) obj \<Rightarrow> error + (string obj) obj" where
  "getProductSectionsAndPageUrls_reduce [] namesAndUrls = Inr namesAndUrls"
| "getProductSectionsAndPageUrls_reduce (section # rest) namesAndUrls =
     (case textContent (ps_h3 section) of
        Inl e \<Rightarrow> Inl e
      | Inr name \<Rightarrow>
          getProductSectionsAndPageUrls_reduce rest
            (AList.update name (productSectionToNamesAndPageUrls (ps_elements section))
               namesAndUrls))"

definition getProductSectionsAndPageUrls :: "page_section list \<Rightarrow> error + (string obj) obj" where
  "getProductSectionsAndPageUrls productPage = getProductSectionsAndPageUrls_reduce productPage []"

text \<open>
  \<open>componentSectionToNameAndData\<close>: \<open>codeButton.click()\<close> throws when the button was not
  found; after the delay the heading is read (the computed key is evaluated first), then
  the code.
\<close>

definition componentSectionToNameAndData :: "component_section \<Rightarrow> error + string \<times> string" where
  "componentSectionToNameAndData componentSection =
     (if \<not> cs_codeButton componentSection then Inl (EvaluationError ''click'')
      else case textContent (cs_h2 componentSection) of
             Inl e \<Rightarrow> Inl e
           | Inr name \<Rightarrow>
               (case textContent (cs_pre_code componentSection) of
                  Inl e \<Rightarrow> Inl e
                | Inr code \<Rightarrow> Inr (name, code)))"

text \<open>
  The asynchronous \<open>reduce\<close> of \<open>getComponentsAndData\<close>: every callback first awaits the
  accumulator promise, so a block is clicked only after all earlier blocks are done, and a
  rejection of one callback rejects every later one and thereby the whole evaluation.
  \<open>getComponentsAndData\<close> catches that rejection and returns \<open>{}\<close>.
\<close>

fun getComponentsAndData_reduce ::
  "component_section list \<Rightarrow> error + string obj \<Rightarrow> error + string obj" where
  "getComponentsAndData_reduce [] obj = obj"
| "getComponentsAndData_reduce (section # rest) obj =
     getComponentsAndData_reduce rest
       (case obj of
          Inl e \<Rightarrow> Inl e
        | Inr awaited \<Rightarrow>
            (case componentSectionToNameAndData section of
               Inl e \<Rightarrow> Inl e
             | Inr (name, code) \<Rightarrow> Inr (AList.update name code awaited)))"

definition getComponentsAndData_evaluate :: "component_section list \<Rightarrow> error + string obj" where
  "getComponentsAndData_evaluate componentPage = getComponentsAndData_reduce componentPage (Inr [])"

definition getComponentsAndData :: "component_section list \<Rightarrow> string obj" where
  "getComponentsAndData componentPage =
     (case getComponentsAndData_evaluate componentPage of Inl e \<Rightarrow> [] | Inr components \<Rightarrow> components)"

section \<open>TraversalOrchestrator: \<open>scrapeTailwindPlus\<close>\<close>

text \<open>
  What the browser yields may depend on everything done with it so far: \<open>goBack\<close> replays the
  history of the page, a navigation may time out at one moment and not at another. So
  every capability of the site takes the list of the browser calls made so far in the run,
  oldest first: each \<open>context.newPage()\<close>, each \<open>goto\<close> with its URL and its outcome, each
  \<open>goBack\<close> with its outcome. \<open>goto\<close> and \<open>goBack\<close> give \<open>None\<close> when the navigation resolves and
  the error when it rejects; the three \<open>_dom\<close> fields give what the extraction functions read
  of the page shown after those calls. The calls made so far identify the point of the run,
  so every run of the program is the run on some site. Opening and closing pages and the
  browser are taken to succeed.

  \<open>productHierarchy\<close> maps each product to its base URL, then to its sections or to an error
  marker; each section maps each group to its URL, then to its components or to an error
  marker. The constructors keep apart what the JavaScript stores as a string, as an object
  of extracted values, and as \<open>{ error: message }\<close>.
\<close>

datatype call = NewPage | Goto string "error option" | GoBack "error option"

record site =
  goto :: "call list \<Rightarrow> string \<Rightarrow> error option"
  goBack :: "call list \<Rightarrow> error option"
  root_dom :: "call list \<Rightarrow> root_section list"
  product_dom :: "call list \<Rightarrow> page_section list"
  components_dom :: "call list \<Rightarrow> component_section list"

datatype group_node = GroupUrl string | Components "string obj" | GroupError error

datatype product_node = ProductUrl string | Sections "(group_node obj) obj" | ProductError error

text \<open>
  The walk carries \<open>productHierarchy\<close>, the browser calls made so far and, for the lifecycle
  claims, the list of assignments made to \<open>productHierarchy\<close>, oldest first.
\<close>

datatype assignment =
  AssignProduct string product_node
| AssignGroup string string string group_node

record walk =
  productHierarchy :: "product_node obj"
  assignments :: "assignment list"
  calls :: "call list"

definition called :: "call \<Rightarrow> walk \<Rightarrow> walk" where
  "called c w = w\<lparr>calls := calls w @ [c]\<rparr>"

definition assign_product :: "string \<Rightarrow> product_node \<Rightarrow> walk \<Rightarrow> walk" where
  "assign_product product v w =
     w\<lparr>productHierarchy := AList.update product v (productHierarchy w),
       assignments := assignments w @ [AssignProduct product v]\<rparr>"

text \<open>
  \<open>productHierarchy[product][productSection][subSection] = v\<close>. Inside the loops the product
  holds its sections and the section exists, so the other cases are never reached; the
  keys written are keys the loops have enumerated from the object itself.
\<close>

definition assign_group :: "string \<Rightarrow> string \<Rightarrow> string \<Rightarrow> group_node \<Rightarrow> walk \<Rightarrow> walk" where
  "assign_group product productSection subSection v w =
     w\<lparr>productHierarchy :=
         AList.map_entry product
           (\<lambda>n. case n of
                  Sections ss \<Rightarrow> Sections (AList.map_entry productSection (AList.update subSection v) ss)
                | _ \<Rightarrow> n)
           (productHierarchy w),
       assignments := assignments w @ [AssignGroup product productSection subSection v]\<rparr>"

text \<open>The body of the innermost loop: the \<open>try\<close> block and its \<open>catch\<close>.\<close>

definition process_group :: "site \<Rightarrow> string \<Rightarrow> string \<Rightarrow> string \<Rightarrow> string \<Rightarrow> walk \<Rightarrow> walk" where
  "process_group s product productSection subSection componentsUrl w =
     (let went = goto s (calls w) componentsUrl;
          w0 = called (Goto componentsUrl went) w
      in case went of
           Some e \<Rightarrow> assign_group product productSection subSection (GroupError e) w0
         | None \<Rightarrow>
             (let components = getComponentsAndData (components_dom s (calls w0));
                  w1 = assign_group product productSection subSection (Components components) w0;
                  back = goBack s (calls w1);
                  w2 = called (GoBack back) w1
              in case back of
                   None \<Rightarrow> w2
                 | Some e \<Rightarrow> assign_group product productSection subSection (GroupError e) w2))"

text \<open>
  The two inner \<open>for\<close> loops. They run over the sections object that was just stored at
  \<open>productHierarchy[product]\<close>: the keys of that object, and for each section its entries as
  they are when the section's loop starts, which no earlier iteration has written to.
\<close>

fun process_groups :: "site \<Rightarrow> string \<Rightarrow> string \<Rightarrow> string obj \<Rightarrow> walk \<Rightarrow> walk" where
  "process_groups s product productSection [] w = w"
| "process_groups s product productSection ((subSection, componentsUrl) # rest) w =
     process_groups s product productSection rest
       (process_group s product productSection subSection componentsUrl w)"

fun process_sections :: "site \<Rightarrow> string \<Rightarrow> (string obj) obj \<Rightarrow> walk \<Rightarrow> walk" where
  "process_sections s product [] w = w"
| "process_sections s product ((productSection, entries) # rest) w =
     process_sections s product rest (process_groups s product productSection entries w)"

definition sections_node :: "(string obj) obj \<Rightarrow> product_node" where
  "sections_node sections =
     Sections (map (\<lambda>(productSection, entries).
                      (productSection, map (\<lambda>(subSection, url). (subSection, GroupUrl url)) entries))
                   sections)"

text \<open>
  The body of the loop over products: a new page, then the outer \<open>try\<close> block and its
  \<open>catch\<close>.
\<close>

definition process_product :: "site \<Rightarrow> string \<Rightarrow> string \<Rightarrow> walk \<Rightarrow> walk" where
  "process_product s product productPageUrl w =
     (let wp = called NewPage w;
          went = goto s (calls wp) productPageUrl;
          w0 = called (Goto productPageUrl went) wp
      in case went of
           Some e \<Rightarrow> assign_product product (ProductError e) w0
         | None \<Rightarrow>
             (case getProductSectionsAndPageUrls (product_dom s (calls w0)) of
                Inl e \<Rightarrow> assign_product product (ProductError e) w0
              | Inr sections \<Rightarrow>
                  process_sections s product sections
                    (assign_product product (sections_node sections) w0)))"

fun process_products :: "site \<Rightarrow> string obj \<Rightarrow> walk \<Rightarrow> walk" where
  "process_products s [] w = w"
| "process_products s ((product, productPageUrl) # rest) w =
     process_products s rest (process_product s product productPageUrl w)"

text \<open>
  \<open>scrapeTailwindPlus\<close>: a failure of the root navigation or of the root extraction is
  logged and thrown again (\<open>Inl\<close>); otherwise the walk over the products is returned, whose
  \<open>productHierarchy\<close> is the value the JavaScript function returns.
\<close>

definition scrapeTailwindPlus :: "site \<Rightarrow> string \<Rightarrow> error + walk" where
  "scrapeTailwindPlus s rootUrl =
     (let went = goto s [NewPage] rootUrl
      in case went of
           Some e \<Rightarrow> Inl e
         | None \<Rightarrow>
             (case getProductNamesAndPageUrls (root_dom s [NewPage, Goto rootUrl went]) of
                Inl e \<Rightarrow> Inl e
              | Inr products \<Rightarrow>
                  Inr (process_products s products
                         \<lparr>productHierarchy =
                            map (\<lambda>(product, url). (product, ProductUrl url)) products,
                          assignments = [],
                          calls = [NewPage, Goto rootUrl went]\<rparr>)))"

section \<open>The program: \<open>main\<close> and its exit status\<close>

text \<open>
  \<open>main\<close> receives the parsed options. What it reads of the machine is a record: whether
  \<open>isValidFilePath\<close> accepts a path, what \<open>loadCookiesFromFile\<close> finds at a path (\<open>None\<close> when
  the file does not exist, which makes it return \<open>null\<close>), what \<open>saveCookies\<close> yields after the
  manual login, the site, and whether writing the result file throws.

  A call ends in one of three ways: it returns, it throws, or it calls \<open>process.exit\<close>.
  The last line of the program is \<open>main().catch(console.error)\<close>: a rejection of \<open>main\<close> is
  logged and thereby handled, no exit code is set, and the process ends with status 0
  once nothing is pending.
\<close>

datatype 'a outcome = Returned 'a | Thrown error | Exited nat

type_synonym cookies = "(string \<times> string) list"

record options =
  outputPath :: string
  cookiesPath :: string
  auth :: bool
  debug :: bool
  help' :: bool

record machine =
  isValidFilePath :: "string \<Rightarrow> bool"
  loadCookiesFromFile :: "string \<Rightarrow> cookies option"
  saveCookies :: "string \<Rightarrow> error + cookies"
  web :: site
  writeFileSync :: "string \<Rightarrow> error option"

definition rootUrl :: string where
  "rootUrl = ''https://tailwindcss.com/plus/ui-blocks''"

text \<open>
  \<open>validateInputs\<close>: both URLs are constants that \<open>isValidUrl\<close> accepts, which leaves the two
  path checks.
\<close>

definition validateInputs :: "machine \<Rightarrow> options \<Rightarrow> unit outcome" where
  "validateInputs m opts =
     (if \<not> isValidFilePath m (outputPath opts) then Exited 1
      else if \<not> isValidFilePath m (cookiesPath opts) then Exited 1
      else Returned ())"

definition handleAuthentication :: "machine \<Rightarrow> options \<Rightarrow> cookies outcome" where
  "handleAuthentication m opts =
     (if auth opts then
        (case saveCookies m (cookiesPath opts) of Inl e \<Rightarrow> Thrown e | Inr c \<Rightarrow> Returned c)
      else
        (case loadCookiesFromFile m (cookiesPath opts) of
           None \<Rightarrow> Exited 1
         | Some c \<Rightarrow> Returned c))"

definition processAndSaveResults :: "machine \<Rightarrow> product_node obj \<Rightarrow> options \<Rightarrow> unit outcome" where
  "processAndSaveResults m componentData opts =
     (if length componentData = 0 then Exited 1
      else case writeFileSync m (outputPath opts) of
             Some e \<Rightarrow> Thrown e
           | None \<Rightarrow> Returned ())"

definition main :: "machine \<Rightarrow> options \<Rightarrow> unit outcome" where
  "main m opts =
     (if help' opts then Returned ()
      else case validateInputs m opts of
             Exited n \<Rightarrow> Exited n
           | Thrown e \<Rightarrow> Thrown e
           | Returned _ \<Rightarrow>
               (case handleAuthentication m opts of
                  Exited n \<Rightarrow> Exited n
                | Thrown e \<Rightarrow> Thrown e
                | Returned cookies \<Rightarrow>
                    (case scrapeTailwindPlus (web m) rootUrl of
                       Inl e \<Rightarrow> Thrown e
                     | Inr w \<Rightarrow> processAndSaveResults m (productHierarchy w) opts)))"

definition exit_status :: "unit outcome \<Rightarrow> nat" where
  "exit_status r = (case r of Exited n \<Rightarrow> n | Thrown e \<Rightarrow> 0 | Returned _ \<Rightarrow> 0)"

section \<open>TreeDiffer: the loops of \<open>tailwindplus-diff.sh\<close>\<close>

text \<open>
  The script (given in full in the README) walks the new snapshot with \<open>jq\<close>, four levels
  deep, and compares each component of the new snapshot with what the same path yields in
  the old one. It runs under \<open>errexit\<close> and \<open>pipefail\<close>.

  A snapshot file is a JSON value built from objects and strings; \<open>JNull\<close> is what indexing
  a missing key gives. Of \<open>jq\<close> the script uses:
  \<^item> \<open>.[$k]\<close>: on an object the value at the key or \<open>null\<close>, on \<open>null\<close> again \<open>null\<close>, on a
    string an error;
  \<^item> \<open>keys[]\<close>: on an object its keys in sorted order, otherwise an error;
  \<^item> \<open>-r\<close>: a string is written as it is, \<open>null\<close> as the word, each followed by a newline.
    The text written for an object is the parameter \<open>render\<close> of the model.
  A failing \<open>jq\<close> writes nothing to its output and exits with a non-zero status.
\<close>

datatype json = JNull | JString string | JObject "(string \<times> json) list"

definition jq_index :: "string \<Rightarrow> json \<Rightarrow> json option" where
  "jq_index k v =
     (case v of
        JObject kvs \<Rightarrow> Some (case map_of kvs k of Some x \<Rightarrow> x | None \<Rightarrow> JNull)
      | JNull \<Rightarrow> Some JNull
      | JString _ \<Rightarrow> None)"

fun jq_path :: "string list \<Rightarrow> json \<Rightarrow> json option" where
  "jq_path [] v = Some v"
| "jq_path (k # ks) v = (case jq_index k v of None \<Rightarrow> None | Some x \<Rightarrow> jq_path ks x)"

definition jq_keys :: "json \<Rightarrow> string list option" where
  "jq_keys v =
     (case v of
        JObject kvs \<Rightarrow> Some (sort (remdups (map fst kvs)))
      | _ \<Rightarrow> None)"

definition jq_raw :: "((string \<times> json) list \<Rightarrow> string) \<Rightarrow> json \<Rightarrow> string" where
  "jq_raw render v =
     (case v of
        JString s \<Rightarrow> s @ [CHR 0x0A]
      | JNull \<Rightarrow> ''null'' @ [CHR 0x0A]
      | JObject kvs \<Rightarrow> render kvs)"

text \<open>
  \<open>... | while read -r x\<close>: the loop body runs once for every newline-terminated line of
  the piped text, with leading and trailing spaces and tabs removed from the line.
\<close>

fun split_lines :: "string \<Rightarrow> string \<Rightarrow> string list" where
  "split_lines cur [] = []"
| "split_lines cur (c # cs) =
     (if c = CHR 0x0A then rev cur # split_lines [] cs else split_lines (c # cur) cs)"

definition is_ifs_blank :: "char \<Rightarrow> bool" where
  "is_ifs_blank c = (c = CHR '' '' \<or> c = CHR 0x09)"

definition read_r :: "string \<Rightarrow> string" where
  "read_r line = rev (dropWhile is_ifs_blank (rev (dropWhile is_ifs_blank line)))"

definition keys_loop :: "string list \<Rightarrow> json \<Rightarrow> string list option" where
  "keys_loop path file =
     (case jq_path path file of
        None \<Rightarrow> None
      | Some v \<Rightarrow>
          (case jq_keys v of
             None \<Rightarrow> None
           | Some ks \<Rightarrow>
               Some (map read_r (split_lines [] (concat (map (\<lambda>k. k @ [CHR 0x0A]) ks))))))"

text \<open>
  The body of the innermost loop, named after what it prints. \<open>temp1\<close> and \<open>temp2\<close> are the
  contents of \<open>temp1.html\<close> and \<open>temp2.html\<close>; \<open>[ -s f ]\<close> holds when \<open>f\<close> is not empty; \<open>cmp -s\<close>
  compares bytes. On \<open>DifferencesFound\<close> the script writes the diff artifact.
\<close>

datatype finding =
  WarningOld | WarningNew | Unchanged | DifferencesFound | OnlyInNew | OnlyInOld | FailedForBoth

definition compare_component ::
  "((string \<times> json) list \<Rightarrow> string) \<Rightarrow> json \<Rightarrow> json \<Rightarrow> string list \<Rightarrow> finding" where
  "compare_component render old_file new_file path =
     (case jq_path path old_file of
        None \<Rightarrow> WarningOld
      | Some old_value \<Rightarrow>
          (case jq_path path new_file of
             None \<Rightarrow> WarningNew
           | Some new_value \<Rightarrow>
               (let temp1 = jq_raw render old_value; temp2 = jq_raw render new_value
                in if temp1 \<noteq> [] \<and> temp2 \<noteq> [] then
                     (if temp1 \<noteq> temp2 then DifferencesFound else Unchanged)
                   else if temp1 = [] \<and> temp2 \<noteq> [] then OnlyInNew
                   else if temp1 \<noteq> [] \<and> temp2 = [] then OnlyInOld
                   else FailedForBoth)))"

text \<open>
  A pipeline \<open>jq ... | while read -r x; do body; done\<close> under \<open>pipefail\<close> and \<open>errexit\<close>. The
  loop runs in a subshell. When \<open>jq\<close> fails, the loop body runs for no line and the pipeline
  has a non-zero status; when a command of a loop body fails, the subshell exits at once
  and the pipeline has a non-zero status again. A pipeline with a non-zero status is
  itself a failing command of the enclosing body, so the first failure ends the whole
  script. What was reported before stays reported. A run is the list of findings made,
  and whether the script came to its end.
\<close>

fun until_failure :: "('a \<Rightarrow> 'f list \<times> bool) \<Rightarrow> 'a list \<Rightarrow> 'f list \<times> bool" where
  "until_failure body [] = ([], True)"
| "until_failure body (x # xs) =
     (let (found, ok) = body x
      in if ok then (let (found', ok') = until_failure body xs in (found @ found', ok'))
         else (found, False))"

definition piped_loop :: "string list option \<Rightarrow> (string \<Rightarrow> 'f list \<times> bool) \<Rightarrow> 'f list \<times> bool" where
  "piped_loop lines body =
     (case lines of None \<Rightarrow> ([], False) | Some xs \<Rightarrow> until_failure body xs)"

text \<open>
  The four nested loops over the keys of the new file. No command of the innermost body
  fails the body: each \<open>jq\<close> and \<open>cmp\<close> there is the condition of an \<open>if\<close>, and the diff commands
  end in \<open>|| true\<close>.
\<close>

definition diff_run ::
  "((string \<times> json) list \<Rightarrow> string) \<Rightarrow> json \<Rightarrow> json \<Rightarrow> (string list \<times> finding) list \<times> bool" where
  "diff_run render old_file new_file =
     piped_loop (keys_loop [] new_file) (\<lambda>category.
       piped_loop (keys_loop [category] new_file) (\<lambda>subcategory.
         piped_loop (keys_loop [category, subcategory] new_file) (\<lambda>grp.
           piped_loop (keys_loop [category, subcategory, grp] new_file) (\<lambda>component.
             ([([category, subcategory, grp, component],
                compare_component render old_file new_file
                  [category, subcategory, grp, component])],
              True)))))"

definition diff_files ::
  "((string \<times> json) list \<Rightarrow> string) \<Rightarrow> json \<Rightarrow> json \<Rightarrow> (string list \<times> finding) list" where
  "diff_files render old_file new_file = fst (diff_run render old_file new_file)"

text \<open>
  The records of a run: a diff artifact is a Modified record, the two "exists only"
  messages are the Added and the Removed record. Warnings and unchanged components are
  no records.
\<close>

datatype kind = Added | Removed | Modified

definition record_of :: "string list \<times> finding \<Rightarrow> (string list \<times> kind) list" where
  "record_of pf =
     (case snd pf of
        DifferencesFound \<Rightarrow> [(fst pf, Modified)]
      | OnlyInNew \<Rightarrow> [(fst pf, Added)]
      | OnlyInOld \<Rightarrow> [(fst pf, Removed)]
      | _ \<Rightarrow> [])"

definition diff_records ::
  "((string \<times> json) list \<Rightarrow> string) \<Rightarrow> json \<Rightarrow> json \<Rightarrow> (string list \<times> kind) list" where
  "diff_records render old_file new_file =
     concat (map record_of (diff_files render old_file new_file))"

section \<open>DiffArtifactWriter: \<open>safe_name\<close>\<close>












section \<open>Auxiliary notions used to state the properties\<close>

text \<open>
  A run of link/label pairs as the product page presents it to
  \<open>productSectionToNamesAndPageUrls\<close>: for each pair the \<open>a\<close> element, then the \<open>p\<close> element;
  and the name-to-URL entries such a run stands for.
\<close>

definition link_label_run :: "(string \<times> string) list \<Rightarrow> element list" where
  "link_label_run pairs = concat (map (\<lambda>(url, name). [A url, P name]) pairs)"

definition name_url_entries :: "(string \<times> string) list \<Rightarrow> string obj" where
  "name_url_entries pairs = map (\<lambda>(url, name). (name, url)) pairs"

text \<open>A component block fails when its reveal or one of its reads throws.\<close>

definition block_fails :: "component_section \<Rightarrow> bool" where
  "block_fails b = isl (componentSectionToNameAndData b)"


text \<open>
  A small site for concrete runs: the root page lists one product, Marketing, whose page
  has one section with two groups. The outcomes of the root navigation and of the first
  group's \<open>goto\<close>, \<open>goBack\<close> and page are parameters; everything else succeeds. The page shown
  is the one of the last call, a resolved \<open>goto\<close>.
\<close>

definition on_hero :: "call list \<Rightarrow> bool" where
  "on_hero cs = (cs \<noteq> [] \<and> last cs = Goto ''https://t/m/hero'' None)"

definition demo_site ::
  "error option \<Rightarrow> error option \<Rightarrow> error option \<Rightarrow> component_section list \<Rightarrow> site" where
  "demo_site root_goto hero_goto hero_goBack hero_page =
     \<lparr>goto = (\<lambda>cs u. if u = rootUrl then root_goto
                      else if u = ''https://t/m/hero'' then hero_goto else None),
      goBack = (\<lambda>cs. if on_hero cs then hero_goBack else None),
      root_dom = (\<lambda>cs. [RootSection (Some ''Marketing'') [''https://t/m/hero'', ''https://t/m/cta'']]),
      product_dom = (\<lambda>cs. [PageSection (Some ''Page Sections'')
                               [A ''https://t/m/hero'', P ''Hero Sections'',
                                A ''https://t/m/cta'', P ''CTA Sections'']]),
      components_dom = (\<lambda>cs. if on_hero cs then hero_page
                              else [ComponentSection True (Some ''Simple centered'') (Some ''<div>cta</div>'')])\<rparr>"

definition demo_machine :: "site \<Rightarrow> machine" where
  "demo_machine s =
     \<lparr>isValidFilePath = (\<lambda>p. True),
      loadCookiesFromFile = (\<lambda>p. Some [(''session'', ''abc'')]),
      saveCookies = (\<lambda>p. Inr [(''session'', ''abc'')]),
      web = s,
      writeFileSync = (\<lambda>p. None)\<rparr>"

definition demo_options :: options where
  "demo_options =
     \<lparr>outputPath = ''./out.json'', cookiesPath = ''./cookies.json'',
      auth = False, debug = False, help' = False\<rparr>"


text \<open>A snapshot with one category, one subcategory and one group holding the given components.\<close>

definition tree_with :: "(string \<times> json) list \<Rightarrow> json" where
  "tree_with components =
     JObject [(''A'', JObject [(''S'', JObject [(''G'', JObject components)])])]"

section \<open>Properties of \<open>findUrlBasePath\<close>\<close>

lemma common_prefix_len_spec:
  "i \<le> length a \<Longrightarrow> i \<le> length b \<Longrightarrow> take i a = take i b \<Longrightarrow>
   common_prefix_len a b i \<le> length a \<and> common_prefix_len a b i \<le> length b \<and>
   take (common_prefix_len a b i) a = take (common_prefix_len a b i) b \<and>
   (common_prefix_len a b i < length a \<and> common_prefix_len a b i < length b \<longrightarrow>
      a ! common_prefix_len a b i \<noteq> b ! common_prefix_len a b i)"
proof (induction a b i rule: common_prefix_len.induct)
  case (1 a b i)
  show ?case
  proof (cases "i < length a \<and> i < length b \<and> a ! i = b ! i")
    case True
    then have t: "take (i + 1) a = take (i + 1) b"
      using "1.prems" by (simp add: take_Suc_conv_app_nth)
    have "common_prefix_len a b i = common_prefix_len a b (i + 1)"
      using True by (subst common_prefix_len.simps) simp
    then show ?thesis using "1.IH"[OF True _ _ t] True by simp
  next
    case False
    then have "common_prefix_len a b i = i"
      by (subst common_prefix_len.simps) auto
    then show ?thesis using False "1.prems" by auto
  qed
qed

lemma common_prefix_len_prefix:
  "prefix (take (common_prefix_len a b 0) a) a \<and> prefix (take (common_prefix_len a b 0) a) b"
proof -
  have "take (common_prefix_len a b 0) a = take (common_prefix_len a b 0) b"
    using common_prefix_len_spec[of 0 a b] by simp
  then show ?thesis by (metis take_is_prefix)
qed

lemma common_prefix_len_longest:
  assumes "prefix p a" "prefix p b"
  shows "prefix p (take (common_prefix_len a b 0) a)"
proof -
  let ?n = "common_prefix_len a b 0"
  have s: "?n \<le> length a" "?n \<le> length b"
    "?n < length a \<and> ?n < length b \<longrightarrow> a ! ?n \<noteq> b ! ?n"
    using common_prefix_len_spec[of 0 a b] by auto
  have "length p \<le> ?n"
  proof (rule ccontr)
    assume "\<not> length p \<le> ?n"
    then have lt: "?n < length p" by simp
    have "length p \<le> length a" "length p \<le> length b"
      using assms by (auto simp: prefix_length_le)
    moreover have "a ! ?n = p ! ?n" "b ! ?n = p ! ?n"
      using assms lt by (auto simp: prefix_def nth_append)
    ultimately show False using s lt by auto
  qed
  then show ?thesis using assms(1)
    by (auto simp: prefix_def)
qed

lemma lex_sandwich:
  fixes x y z :: "('a::linorder) list"
  shows "prefix p x \<Longrightarrow> prefix p z \<Longrightarrow> x \<le> y \<Longrightarrow> y \<le> z \<Longrightarrow> prefix p y"
proof (induction p arbitrary: x y z)
  case Nil
  then show ?case by simp
next
  case (Cons c p)
  from Cons.prems(1) obtain x' where x: "x = c # x'" "prefix p x'"
    by (cases x) simp_all
  from Cons.prems(2) obtain z' where z: "z = c # z'" "prefix p z'"
    by (cases z) simp_all
  from Cons.prems(3) x obtain d y' where y: "y = d # y'"
    by (cases y) simp_all
  have xy: "c < d \<or> c = d \<and> x' \<le> y'"
    using Cons.prems(3) x y by simp
  have yz: "d < c \<or> d = c \<and> y' \<le> z'"
    using Cons.prems(4) z y by simp
  from xy yz have d: "d = c" and le: "x' \<le> y'" "y' \<le> z'"
    by auto
  have "prefix p y'"
    by (rule Cons.IH[OF x(2) z(2) le])
  with y d show ?case by simp
qed

lemma sorted_ends:
  fixes xs :: "('a::linorder) list"
  assumes "sorted xs" "u \<in> set xs"
  shows "xs ! 0 \<le> u \<and> u \<le> xs ! (length xs - 1)"
proof -
  from assms(2) obtain k where k: "k < length xs" "xs ! k = u"
    by (auto simp: in_set_conv_nth)
  then show ?thesis
    using assms(1) sorted_nth_mono[of xs 0 k] sorted_nth_mono[of xs k "length xs - 1"]
    by auto
qed

lemma findUrlBasePath_sorted_form:
  fixes urls :: "('a::linorder) list list"
  assumes "2 \<le> length urls"
  shows "findUrlBasePath urls =
     take (common_prefix_len (sort urls ! 0) (sort urls ! (length urls - 1)) 0) (sort urls ! 0)"
  using assms by (auto simp: findUrlBasePath_def Let_def)

lemma findUrlBasePath_prefix:
  fixes urls :: "('a::linorder) list list"
  assumes "u \<in> set urls"
  shows "prefix (findUrlBasePath urls) u"
proof (cases "2 \<le> length urls")
  case True
  let ?s = "sort urls"
  have su: "sorted ?s" "u \<in> set ?s" "length ?s = length urls"
    using assms by simp_all
  have ends: "?s ! 0 \<le> u \<and> u \<le> ?s ! (length urls - 1)"
    using sorted_ends[OF su(1,2)] su(3) by simp
  have p: "prefix (findUrlBasePath urls) (?s ! 0) \<and>
           prefix (findUrlBasePath urls) (?s ! (length urls - 1))"
    using common_prefix_len_prefix[of "?s ! 0" "?s ! (length urls - 1)"]
    by (simp add: findUrlBasePath_sorted_form[OF True])
  show ?thesis
    using lex_sandwich[of "findUrlBasePath urls" "?s ! 0" "?s ! (length urls - 1)" u] p ends
    by blast
next
  case False
  with assms obtain v where "urls = [v]"
    by (cases urls) (auto simp: Suc_le_eq)
  with assms show ?thesis by (simp add: findUrlBasePath_def)
qed

lemma findUrlBasePath_greatest:
  fixes urls :: "('a::linorder) list list"
  assumes "urls \<noteq> []" "\<forall>u \<in> set urls. prefix p u"
  shows "prefix p (findUrlBasePath urls)"
proof (cases "2 \<le> length urls")
  case True
  let ?s = "sort urls"
  have len: "0 < length ?s" "length urls - 1 < length ?s"
    using True by auto
  have "?s ! 0 \<in> set ?s" "?s ! (length urls - 1) \<in> set ?s"
    by (rule nth_mem[OF len(1)], rule nth_mem[OF len(2)])
  then have "prefix p (?s ! 0)" "prefix p (?s ! (length urls - 1))"
    using assms(2) by simp_all
  then show ?thesis
    using common_prefix_len_longest[of p "?s ! 0" "?s ! (length urls - 1)"]
    by (simp add: findUrlBasePath_sorted_form[OF True])
next
  case False
  with assms(1) obtain v where "urls = [v]"
    by (cases urls) (auto simp: Suc_le_eq)
  with assms(2) show ?thesis by (simp add: findUrlBasePath_def)
qed

text \<open>
  Claim C3. For every sequence of URLs, \<open>findUrlBasePath\<close> returns the longest common prefix
  of its elements: the empty sequence gives the empty string, a singleton gives its sole
  element, the result is a prefix of every input, every common prefix of all inputs is a
  prefix of the result, and when no character starts every input the result is empty.
  The proof rests on \<open>lex_sandwich\<close>: a common prefix of the lexicographic minimum and
  maximum is a prefix of everything between them.
\<close>

theorem findUrlBasePath_longest_common_prefix:
  fixes urls :: "('a::linorder) list list"
  shows "(urls = [] \<longrightarrow> findUrlBasePath urls = []) \<and>
         (\<forall>u. urls = [u] \<longrightarrow> findUrlBasePath urls = u) \<and>
         (\<forall>u \<in> set urls. prefix (findUrlBasePath urls) u) \<and>
         (urls \<noteq> [] \<longrightarrow> (\<forall>p. (\<forall>u \<in> set urls. prefix p u) \<longrightarrow> prefix p (findUrlBasePath urls))) \<and>
         (\<not> (\<exists>c. \<forall>u \<in> set urls. prefix [c] u) \<longrightarrow> findUrlBasePath urls = [])"
proof (intro conjI allI impI ballI)
  assume "urls = []" then show "findUrlBasePath urls = []"
    by (simp add: findUrlBasePath_def)
next
  fix u assume "urls = [u]" then show "findUrlBasePath urls = u"
    by (simp add: findUrlBasePath_def)
next
  fix u assume "u \<in> set urls" then show "prefix (findUrlBasePath urls) u"
    by (rule findUrlBasePath_prefix)
next
  fix p assume "urls \<noteq> []" "\<forall>u \<in> set urls. prefix p u"
  then show "prefix p (findUrlBasePath urls)"
    by (rule findUrlBasePath_greatest)
next
  assume n: "\<not> (\<exists>c. \<forall>u \<in> set urls. prefix [c] u)"
  show "findUrlBasePath urls = []"
  proof (cases "findUrlBasePath urls")
    case Nil then show ?thesis .
  next
    case (Cons c r)
    have "\<forall>u \<in> set urls. prefix [c] u"
    proof
      fix u assume "u \<in> set urls"
      then have "prefix (c # r) u" using findUrlBasePath_prefix[of u urls] Cons by simp
      then show "prefix [c] u" by (cases u) simp_all
    qed
    with n show ?thesis by blast
  qed
qed

theorem findUrlBasePath_longest_common_prefix_witness:
  "prefix (findUrlBasePath [''http://x/a/b'', ''http://x/a/c'', ''http://x/ab'']) ''http://x/a/c'' \<and>
   prefix ''http://x/'' (findUrlBasePath [''http://x/a/b'', ''http://x/a/c'', ''http://x/ab'']) \<and>
   findUrlBasePath [''http://x/a/b''] = ''http://x/a/b'' \<and>
   findUrlBasePath [''a'', ''b''] = ''''"
proof -
  let ?X = "[''http://x/a/b'', ''http://x/a/c'', ''http://x/ab'']"
  have m: "''http://x/a/c'' \<in> set ?X" by simp
  have a: "\<forall>u \<in> set ?X. prefix ''http://x/'' u" by simp
  have n: "\<not> (\<exists>c. \<forall>u \<in> set [''a'', ''b'']. prefix [c] u)" by auto
  have 1: "prefix (findUrlBasePath ?X) ''http://x/a/c''"
    using findUrlBasePath_longest_common_prefix[of ?X] m by blast
  have 2: "prefix ''http://x/'' (findUrlBasePath ?X)"
    using findUrlBasePath_longest_common_prefix[of ?X] a by blast
  have 3: "findUrlBasePath [''http://x/a/b''] = ''http://x/a/b''"
    using findUrlBasePath_longest_common_prefix[of "[''http://x/a/b'']"] by blast
  have 4: "findUrlBasePath [''a'', ''b''] = ''''"
    using findUrlBasePath_longest_common_prefix[of "[''a'', ''b'']"] n by blast
  from 1 2 3 4 show ?thesis by blast
qed

text \<open>
  Claim C10. \<open>findUrlBasePath\<close> does not mutate its argument: after the call every array
  that existed before it, the argument included, holds the same elements in the same order;
  only the freshly allocated copy is sorted. The value returned is that of the pure model.
\<close>

theorem findUrlBasePath_does_not_mutate_argument:
  "urls < length h \<Longrightarrow>
   snd (findUrlBasePath_heap h urls) ! urls = h ! urls \<and>
   (\<forall>a < length h. snd (findUrlBasePath_heap h urls) ! a = h ! a) \<and>
   fst (findUrlBasePath_heap h urls) = findUrlBasePath (h ! urls)"
  by (simp add: findUrlBasePath_heap_def findUrlBasePath_def spread_copy_def array_sort_def Let_def nth_append)

theorem findUrlBasePath_does_not_mutate_argument_witness:
  "(0::nat) < length [[''b'', ''a'', ''c'']] \<and>
   snd (findUrlBasePath_heap [[''b'', ''a'', ''c'']] 0) ! 0 = [''b'', ''a'', ''c'']"
  using findUrlBasePath_does_not_mutate_argument[of 0 "[[''b'', ''a'', ''c'']]"]
  by simp

section \<open>Properties of the extraction functions\<close>

lemma link_label_run_Cons:
  "map element_value (link_label_run ((url, name) # pairs)) =
     url # name # map element_value (link_label_run pairs)"
  by (simp add: link_label_run_def element_value_def)

lemma map_of_assign_string:
  "map_of (assign_string k v acc) =
     (if k = ''__proto__'' then map_of acc else (map_of acc)(k \<mapsto> v))"
  by (simp add: assign_string_def update_conv')

lemma reduce_pairs:
  assumes "even (length pre)"
  shows "map_of (reduce_index
           (\<lambda>obj item index.
              if index mod 2 = 1
              then assign_string item ((pre @ map element_value (link_label_run pairs)) ! (index - 1)) obj
              else obj)
           (map element_value (link_label_run pairs)) (length pre) acc)
         = map_of acc ++
           map_of (rev (name_url_entries (filter (\<lambda>p. snd p \<noteq> ''__proto__'') pairs)))"
  using assms
proof (induction pairs arbitrary: pre acc)
  case Nil
  then show ?case by (simp add: link_label_run_def name_url_entries_def)
next
  case (Cons p pairs)
  obtain url name where p: "p = (url, name)" by (cases p)
  let ?rest = "map element_value (link_label_run pairs)"
  let ?kept = "filter (\<lambda>p. snd p \<noteq> ''__proto__'') pairs"
  have ev: "even (length (pre @ [url, name]))" using Cons.prems by simp
  have arr: "pre @ map element_value (link_label_run (p # pairs)) = (pre @ [url, name]) @ ?rest"
    by (simp add: p link_label_run_Cons)
  have odd: "Suc (length pre) mod 2 = 1" using Cons.prems
    by (simp add: mod_Suc even_iff_mod_2_eq_zero)
  have evn: "length pre mod 2 \<noteq> 1" using Cons.prems by presburger
  have nth: "((pre @ [url, name]) @ ?rest) ! length pre = url"
    by (simp add: nth_append)
  have "map_of (reduce_index
           (\<lambda>obj item index.
              if index mod 2 = 1
              then assign_string item ((pre @ map element_value (link_label_run (p # pairs))) ! (index - 1)) obj
              else obj)
           (map element_value (link_label_run (p # pairs))) (length pre) acc)
        = map_of (reduce_index
           (\<lambda>obj item index.
              if index mod 2 = 1
              then assign_string item (((pre @ [url, name]) @ ?rest) ! (index - 1)) obj
              else obj)
           ?rest (length (pre @ [url, name])) (assign_string name url acc))"
    unfolding arr using odd evn nth by (simp add: p link_label_run_Cons)
  also have "\<dots> = map_of (assign_string name url acc) ++ map_of (rev (name_url_entries ?kept))"
    by (rule Cons.IH[OF ev])
  also have "\<dots> = map_of acc ++
      map_of (rev (name_url_entries (filter (\<lambda>p. snd p \<noteq> ''__proto__'') (p # pairs))))"
    by (simp add: p name_url_entries_def map_of_assign_string map_add_upd_left)
  finally show ?case .
qed

lemma productSectionToNamesAndPageUrls_map_of:
  "map_of (productSectionToNamesAndPageUrls (link_label_run pairs)) =
     map_of (rev (name_url_entries (filter (\<lambda>p. snd p \<noteq> ''__proto__'') pairs)))"
proof -
  have "even (length ([]::string list))" by simp
  from reduce_pairs[OF this, of pairs "[]"] show ?thesis
    unfolding productSectionToNamesAndPageUrls_def Let_def append_Nil list.size
    by simp
qed

text \<open>
  Claim C8, as stated, at a run in which the label precedes its link: the callback writes
  \<open>obj[item] = array[index - 1]\<close> at odd indices, so the element at the odd index is the key
  and the one before it the value. With the label first, the link becomes the key and the
  label the value; the label is not a key of the result.
\<close>

theorem productSectionToNamesAndPageUrls_label_first_counterexample:
  "productSectionToNamesAndPageUrls [P ''Hero Sections'', A ''http://hero-sections'']
     = [(''http://hero-sections'', ''Hero Sections'')] \<and>
   map_of (productSectionToNamesAndPageUrls [P ''Hero Sections'', A ''http://hero-sections''])
     ''Hero Sections'' \<noteq> Some ''http://hero-sections''"
  by (simp add: productSectionToNamesAndPageUrls_def element_value_def assign_string_def Let_def)

text \<open>
  Claim C8, amended. For every run of link/label pairs in which each link precedes its
  label, the resulting mapping takes each label other than \<open>__proto__\<close> as the key and the
  link immediately before it as the value; a label that occurs more than once keeps the
  link of its last occurrence, and with pairwise distinct labels every pair of the run
  whose label is not \<open>__proto__\<close> is an entry. The label \<open>__proto__\<close> gets no entry: the
  assignment to that name stores nothing.
\<close>

theorem productSectionToNamesAndPageUrls_link_first:
  "map_of (productSectionToNamesAndPageUrls (link_label_run pairs)) =
     map_of (rev (name_url_entries (filter (\<lambda>p. snd p \<noteq> ''__proto__'') pairs))) \<and>
   (distinct (map snd pairs) \<longrightarrow>
      (\<forall>(url, name) \<in> set pairs.
         name \<noteq> ''__proto__'' \<longrightarrow>
         map_of (productSectionToNamesAndPageUrls (link_label_run pairs)) name = Some url)) \<and>
   map_of (productSectionToNamesAndPageUrls (link_label_run pairs)) ''__proto__'' = None"
proof (intro conjI impI)
  show "map_of (productSectionToNamesAndPageUrls (link_label_run pairs)) =
     map_of (rev (name_url_entries (filter (\<lambda>p. snd p \<noteq> ''__proto__'') pairs)))"
    by (rule productSectionToNamesAndPageUrls_map_of)
next
  assume d: "distinct (map snd pairs)"
  let ?kept = "filter (\<lambda>p. snd p \<noteq> ''__proto__'') pairs"
  have fst_eq: "map fst (name_url_entries ?kept) = map snd ?kept"
    by (induction pairs) (auto simp: name_url_entries_def)
  have "distinct (map snd ?kept)"
    using d by (induction pairs) auto
  then have dr: "distinct (map fst (rev (name_url_entries ?kept)))"
    by (simp add: rev_map[symmetric] fst_eq)
  show "\<forall>(url, name) \<in> set pairs.
         name \<noteq> ''__proto__'' \<longrightarrow>
         map_of (productSectionToNamesAndPageUrls (link_label_run pairs)) name = Some url"
  proof (clarify)
    fix url name assume "(url, name) \<in> set pairs" "name \<noteq> ''__proto__''"
    then have "(name, url) \<in> set (rev (name_url_entries ?kept))"
      by (force simp: name_url_entries_def)
    then show "map_of (productSectionToNamesAndPageUrls (link_label_run pairs)) name = Some url"
      using dr by (simp add: productSectionToNamesAndPageUrls_map_of)
  qed
next
  let ?kept = "filter (\<lambda>p. snd p \<noteq> ''__proto__'') pairs"
  have "''__proto__'' \<notin> fst ` set (rev (name_url_entries ?kept))"
    by (auto simp: name_url_entries_def)
  then show "map_of (productSectionToNamesAndPageUrls (link_label_run pairs)) ''__proto__'' = None"
    by (simp add: productSectionToNamesAndPageUrls_map_of map_of_eq_None_iff)
qed

theorem productSectionToNamesAndPageUrls_link_first_witness:
  "distinct (map snd [(''http://hero-sections'', ''Hero Sections''), (''http://x'', ''__proto__''),
                      (''http://cta-sections'', ''CTA Sections'')]) \<and>
   ''CTA Sections'' \<noteq> ''__proto__'' \<and>
   map_of (productSectionToNamesAndPageUrls
      [A ''http://hero-sections'', P ''Hero Sections'', A ''http://x'', P ''__proto__'',
       A ''http://cta-sections'', P ''CTA Sections''])
      ''CTA Sections'' = Some ''http://cta-sections'' \<and>
   map_of (productSectionToNamesAndPageUrls
      [A ''http://hero-sections'', P ''Hero Sections'', A ''http://x'', P ''__proto__'',
       A ''http://cta-sections'', P ''CTA Sections''])
      ''__proto__'' = None"
proof -
  let ?ps = "[(''http://hero-sections'', ''Hero Sections''), (''http://x'', ''__proto__''),
              (''http://cta-sections'', ''CTA Sections'')]"
  have d: "distinct (map snd ?ps)" by simp
  have m: "(''http://cta-sections'', ''CTA Sections'') \<in> set ?ps" by simp
  have n: "''CTA Sections'' \<noteq> ''__proto__''" by simp
  have r: "link_label_run ?ps =
      [A ''http://hero-sections'', P ''Hero Sections'', A ''http://x'', P ''__proto__'',
       A ''http://cta-sections'', P ''CTA Sections'']"
    by (simp add: link_label_run_def)
  note t = productSectionToNamesAndPageUrls_link_first[of ?ps]
  have 1: "map_of (productSectionToNamesAndPageUrls (link_label_run ?ps)) ''CTA Sections''
      = Some ''http://cta-sections''"
    using t[THEN conjunct2, THEN conjunct1, rule_format, OF d m] n by simp
  have 2: "map_of (productSectionToNamesAndPageUrls (link_label_run ?ps)) ''__proto__'' = None"
    by (rule t[THEN conjunct2, THEN conjunct2])
  show ?thesis
    using 1 2 unfolding r by (intro conjI d n)
qed







section \<open>Properties of the traversal\<close>

subsection \<open>Concrete runs on the small site\<close>

lemmas demo_defs = scrapeTailwindPlus_def demo_site_def rootUrl_def getProductNamesAndPageUrls_def
  getProductSectionsAndPageUrls_def productSectionToNamesAndPageUrls_def element_value_def
  textContent_def process_product_def process_group_def assign_product_def assign_group_def
  called_def on_hero_def assign_string_def
  sections_node_def getComponentsAndData_def getComponentsAndData_evaluate_def
  componentSectionToNameAndData_def Let_def

lemma demo_base_url:
  "findUrlBasePath [''https://t/m/hero'', ''https://t/m/cta''] = ''https://t/m/''"
  by code_simp

text \<open>
  Claim C2 at a run in which the extraction of one group's page fails (its only block has
  no code button) while every navigation succeeds. The \<open>catch\<close> of the group loop would
  install the error marker, but \<open>getComponentsAndData\<close> has caught the failure itself and
  returned \<open>{}\<close>: the group's node becomes the empty mapping, no error marker is installed,
  and the run reports the components as downloaded. The sibling group completes with its
  content.
\<close>

theorem scrapeTailwindPlus_extraction_failure_no_marker:
  "block_fails (ComponentSection False (Some ''Simple'') (Some ''<div>1</div>'')) \<and>
   map_sum id productHierarchy
     (scrapeTailwindPlus
        (demo_site None None None [ComponentSection False (Some ''Simple'') (Some ''<div>1</div>'')])
        rootUrl)
   = Inr [(''Marketing'',
           Sections
             [(''Page Sections'',
               [(''Hero Sections'', Components []),
                (''CTA Sections'', Components [(''Simple centered'', ''<div>cta</div>'')])])])]"
  by (simp add: demo_defs block_fails_def demo_base_url)

text \<open>
  For comparison, the path that does work: when the \<open>goto\<close> of the same group fails, the
  \<open>catch\<close> of the group loop installs the error marker at that group, and the sibling group
  completes with its content.
\<close>

lemma scrapeTailwindPlus_goto_failure_marker:
  "map_sum id productHierarchy
     (scrapeTailwindPlus
        (demo_site None (Some (NavigationError ''Timeout 30000ms exceeded'')) None [])
        rootUrl)
   = Inr [(''Marketing'',
           Sections
             [(''Page Sections'',
               [(''Hero Sections'', GroupError (NavigationError ''Timeout 30000ms exceeded'')),
                (''CTA Sections'', Components [(''Simple centered'', ''<div>cta</div>'')])])])]"
  by (simp add: demo_defs demo_base_url)

text \<open>
  Claim C4 at a run in which a group's \<open>goto\<close> and extraction succeed and its \<open>goBack\<close> times
  out: the group's node is assigned twice, first the extracted components, then the error
  marker that replaces them. (\<open>goBack\<close> is inside the \<open>try\<close> block, after the assignment.)
\<close>

theorem scrapeTailwindPlus_goBack_overwrites_content:
  "map_sum id assignments
     (scrapeTailwindPlus
        (demo_site None None (Some (NavigationError ''Timeout 15000ms exceeded''))
           [ComponentSection True (Some ''Simple'') (Some ''<div>1</div>'')])
        rootUrl)
   = Inr [AssignProduct ''Marketing''
            (Sections
               [(''Page Sections'',
                 [(''Hero Sections'', GroupUrl ''https://t/m/hero''),
                  (''CTA Sections'', GroupUrl ''https://t/m/cta'')])]),
          AssignGroup ''Marketing'' ''Page Sections'' ''Hero Sections''
            (Components [(''Simple'', ''<div>1</div>'')]),
          AssignGroup ''Marketing'' ''Page Sections'' ''Hero Sections''
            (GroupError (NavigationError ''Timeout 15000ms exceeded'')),
          AssignGroup ''Marketing'' ''Page Sections'' ''CTA Sections''
            (Components [(''Simple centered'', ''<div>cta</div>'')])]"
  by (simp add: demo_defs demo_base_url)

section \<open>Properties of \<open>main\<close>\<close>

text \<open>
  Claim C7 at a run with valid paths and stored cookies in which the navigation to the root
  page fails: \<open>scrapeTailwindPlus\<close> throws again, \<open>main\<close> rejects, the rejection is handed to
  \<open>console.error\<close>, and the exit status is 0.
\<close>

theorem main_root_navigation_failure_exit_status:
  "main (demo_machine (demo_site (Some (NavigationError ''net::ERR_NAME_NOT_RESOLVED'')) None None []))
        demo_options
     = Thrown (NavigationError ''net::ERR_NAME_NOT_RESOLVED'') \<and>
   exit_status
     (main (demo_machine (demo_site (Some (NavigationError ''net::ERR_NAME_NOT_RESOLVED'')) None None []))
           demo_options) = 0"
  by (simp add: main_def validateInputs_def handleAuthentication_def demo_machine_def
      demo_options_def scrapeTailwindPlus_def demo_site_def exit_status_def)

text \<open>
  The same for every machine and every options; and the credential half of the claim,
  which the code meets: without \<open>--auth\<close> and without a cookie file the status is 1.
\<close>

lemma main_root_navigation_failure:
  assumes "\<not> help' opts" "validateInputs m opts = Returned ()"
    and "handleAuthentication m opts = Returned c"
    and "goto (web m) [NewPage] rootUrl = Some e"
  shows "main m opts = Thrown e" "exit_status (main m opts) = 0"
  using assms by (simp_all add: main_def scrapeTailwindPlus_def exit_status_def)

lemma main_no_cookies:
  assumes "\<not> help' opts" "validateInputs m opts = Returned ()"
    and "\<not> auth opts" "loadCookiesFromFile m (cookiesPath opts) = None"
  shows "exit_status (main m opts) = 1"
  using assms by (simp add: main_def handleAuthentication_def exit_status_def)

section \<open>Properties of the differ\<close>

lemma compare_component_same:
  "compare_component render t t path \<in> {WarningOld, Unchanged, FailedForBoth}"
  by (cases "jq_path path t") (simp_all add: compare_component_def Let_def)

lemma until_failure_all:
  assumes "\<And>a. \<forall>x \<in> set (fst (body a)). Q x"
  shows "\<forall>x \<in> set (fst (until_failure body xs)). Q x"
proof (induction xs)
  case Nil
  then show ?case by simp
next
  case (Cons a xs)
  obtain found ok where b: "body a = (found, ok)" by (cases "body a")
  obtain found' ok' where u: "until_failure body xs = (found', ok')"
    by (cases "until_failure body xs")
  have 1: "\<forall>x \<in> set found. Q x" using assms[of a] b by simp
  have 2: "\<forall>x \<in> set found'. Q x" using Cons.IH u by simp
  show ?case using 1 2 by (auto simp: b u)
qed

lemma piped_loop_all:
  assumes "\<And>a. \<forall>x \<in> set (fst (body a)). Q x"
  shows "\<forall>x \<in> set (fst (piped_loop lines body)). Q x"
  using until_failure_all[of body Q, OF assms]
  by (cases lines) (simp_all add: piped_loop_def)

lemma diff_files_findings:
  "\<forall>x \<in> set (diff_files render old_file new_file).
     \<exists>path. snd x = compare_component render old_file new_file path"
  unfolding diff_files_def diff_run_def
proof (rule piped_loop_all, rule piped_loop_all, rule piped_loop_all, rule piped_loop_all)
  fix a b c d
  show "\<forall>x \<in> set (fst ([([a, b, c, d], compare_component render old_file new_file [a, b, c, d])], True)).
          \<exists>path. snd x = compare_component render old_file new_file path"
    by auto
qed

text \<open>
  Claim C9. Diffing a snapshot against itself yields no record (no Added, Removed or
  Modified), and no component is reported as different, so no diff artifact is written.
  This holds for every JSON value and whatever text \<open>jq\<close> prints for an object.
\<close>

theorem diff_records_same_tree:
  "diff_records render t t = [] \<and>
   DifferencesFound \<notin> snd ` set (diff_files render t t)"
proof
  have "\<forall>x \<in> set (diff_files render t t). record_of x = []"
  proof
    fix x assume "x \<in> set (diff_files render t t)"
    then obtain path where "snd x = compare_component render t t path"
      using diff_files_findings by blast
    then show "record_of x = []"
      using compare_component_same[of render t path] by (auto simp: record_of_def)
  qed
  then show "diff_records render t t = []"
    by (simp add: diff_records_def)
next
  have "\<forall>x \<in> set (diff_files render t t). snd x \<noteq> DifferencesFound"
  proof
    fix x assume "x \<in> set (diff_files render t t)"
    then obtain path where "snd x = compare_component render t t path"
      using diff_files_findings by blast
    then show "snd x \<noteq> DifferencesFound"
      using compare_component_same[of render t path] by auto
  qed
  then show "DifferencesFound \<notin> snd ` set (diff_files render t t)"
    by auto
qed

text \<open>
  Claim C1 at two pairs of snapshots. The loops run over the keys of the new file only, so
  a component that exists only in the old file is never compared and yields no record.
  A component that exists only in the new file is compared with the text \<open>null\<close> that \<open>jq\<close>
  prints for the missing path, so both temporary files are non-empty and the component is
  reported as different (a diff artifact, the Modified record), not as existing only in
  the new file.
\<close>

theorem diff_records_removed_leaf_missed:
  "diff_records render (tree_with [(''X'', JString ''<div>1</div>'')]) (tree_with []) = [] \<and>
   diff_records render (tree_with []) (tree_with [(''Y'', JString ''<div>new</div>'')])
     = [([''A'', ''S'', ''G'', ''Y''], Modified)]"
  by (simp add: diff_records_def diff_files_def diff_run_def piped_loop_def keys_loop_def
      jq_index_def jq_keys_def tree_with_def read_r_def is_ifs_blank_def compare_component_def
      jq_raw_def record_of_def Let_def)

section \<open>Properties of \<open>safe_name\<close>\<close>















end
